theory Spec2Isabelle
  imports Main "HOL-Library.Multiset"
begin

section \<open>Data model of \<open>src/app/page.tsx\<close>\<close>

text \<open>
  The TypeScript interfaces \<open>Movie\<close>, \<open>VoteDoc\<close> and \<open>ScoredMovie\<close> become records.
  A JavaScript \<open>number\<close> that holds a vote weight or a score is an \<open>int\<close> (the code
  only compares, adds and subtracts them). A \<open>Record<string, number>\<close> is an
  association list in the object's property order; a JavaScript object has every key
  once, which is the side condition \<open>distinct (map fst votes)\<close> where a statement
  needs it. The fields \<open>plus\<close>, \<open>minus\<close>, \<open>total\<close>, \<open>voters\<close>, \<open>name\<close>, \<open>type\<close>
  and \<open>id\<close> carry a prefix, since HOL has constants of these names.

  The file holds the application twice, in JavaScript and in TypeScript, with the same
  logic; the model follows the TypeScript copy. A vote document may lack its \<open>votes\<close>
  field (renaming a user writes a document with the user name only), hence the
  \<open>option\<close>. A write with \<open>setDoc\<close> is taken to succeed, and the ballot read back
  to be the object written.
\<close>

type_synonym votes_map = "(string \<times> int) list"

record FirebaseUser =
  uid :: string
  displayName :: string

record Movie =
  movie_id :: string
  title :: string
  link :: "string option"
  comment :: "string option"
  nominator :: string
  nominatorId :: string
  createdAt :: int

record VoteDoc =
  votes :: "votes_map option"
  userName :: string
  updatedAt :: int

record Voter =
  voter_name :: string
  voter_type :: int

record ScoredMovie = Movie +
  sm_plus :: int
  sm_minus :: int
  sm_total :: int
  sm_voters :: "Voter list"

datatype vote_type = VotePlus | VoteMinus

record VotingPhaseProps =
  user :: "FirebaseUser option"
  movies :: "Movie list"
  userVotes :: votes_map
  remainingPlus :: int
  remainingMinus :: int


section \<open>Casting a vote: \<open>handleVote\<close>\<close>

text \<open>\<open>userVotes[movieId] || 0\<close>: the weight stored under the key, 0 when there is none.\<close>

definition currentVote_of :: "votes_map \<Rightarrow> string \<Rightarrow> int" where
  "currentVote_of uv movieId = (case map_of uv movieId of None \<Rightarrow> 0 | Some v \<Rightarrow> v)"

text \<open>
  The two branches of \<open>handleVote\<close> that choose \<open>newVote\<close>; \<open>None\<close> is the
  \<open>else return\<close> of either branch.
\<close>

definition newVote_of :: "vote_type \<Rightarrow> int \<Rightarrow> int \<Rightarrow> int \<Rightarrow> int option" where
  "newVote_of ty currentVote remPlus remMinus =
     (case ty of
        VotePlus \<Rightarrow>
          if currentVote = 1 then Some 0
          else if remPlus > 0 \<or> currentVote = - 1 then Some 1
          else None
      | VoteMinus \<Rightarrow>
          if currentVote = - 1 then Some 0
          else if remMinus > 0 \<or> currentVote = 1 then Some (- 1)
          else None)"

text \<open>
  \<open>{ ...userVotes, [movieId]: newVote }\<close>: an existing key keeps its place and gets the
  new value, a new key goes to the end.
\<close>

fun assign :: "string \<Rightarrow> int \<Rightarrow> votes_map \<Rightarrow> votes_map" where
  "assign k v [] = [(k, v)]"
| "assign k v (p # ps) = (if fst p = k then (k, v) # ps else p # assign k v ps)"

text \<open>The \<open>forEach\<close> that deletes every key whose value is 0.\<close>

definition delete_zero :: "votes_map \<Rightarrow> votes_map" where
  "delete_zero m = filter (\<lambda>p. snd p \<noteq> 0) m"

text \<open>
  \<open>handleVote\<close> returns the \<open>votes\<close> object it hands to \<open>setDoc\<close>, or \<open>None\<close> when it
  returns before writing (no user, or one of the two \<open>else return\<close>).
\<close>

definition handleVote :: "VotingPhaseProps \<Rightarrow> string \<Rightarrow> vote_type \<Rightarrow> votes_map option" where
  "handleVote p movieId ty =
     (case user p of
        None \<Rightarrow> None
      | Some u \<Rightarrow>
          (case newVote_of ty (currentVote_of (userVotes p) movieId)
                  (remainingPlus p) (remainingMinus p) of
             None \<Rightarrow> None
           | Some newVote \<Rightarrow> Some (delete_zero (assign movieId newVote (userVotes p)))))"

text \<open>
  The \<open>disabled\<close> attribute of the two vote buttons of a movie; a disabled button
  does not run its \<open>onClick\<close>.
\<close>

definition button_disabled :: "vote_type \<Rightarrow> int \<Rightarrow> int \<Rightarrow> int \<Rightarrow> bool" where
  "button_disabled ty myVote remPlus remMinus =
     (case ty of
        VotePlus \<Rightarrow> myVote \<noteq> 1 \<and> remPlus = 0
      | VoteMinus \<Rightarrow> myVote \<noteq> - 1 \<and> remMinus = 0)"

text \<open>
  A press on the button \<open>ty\<close> of movie \<open>movieId\<close>: the buttons are rendered by
  \<open>movies.map\<close>, so there is one only for a listed movie.
\<close>

definition press :: "VotingPhaseProps \<Rightarrow> string \<Rightarrow> vote_type \<Rightarrow> votes_map option" where
  "press p movieId ty =
     (if movieId \<in> set (map movie_id (movies p))
         \<and> \<not> button_disabled ty (currentVote_of (userVotes p) movieId)
               (remainingPlus p) (remainingMinus p)
      then handleVote p movieId ty
      else None)"


section \<open>The allowance counters of \<open>Home\<close>\<close>

definition plusUsed :: "votes_map \<Rightarrow> nat" where
  "plusUsed myVotes = length (filter (\<lambda>v. v = 1) (map snd myVotes))"

definition minusUsed :: "votes_map \<Rightarrow> nat" where
  "minusUsed myVotes = length (filter (\<lambda>v. v = - 1) (map snd myVotes))"

text \<open>The props \<open>Home\<close> passes to \<open>VotingPhase\<close>.\<close>

definition voting_props :: "FirebaseUser option \<Rightarrow> Movie list \<Rightarrow> votes_map \<Rightarrow> VotingPhaseProps" where
  "voting_props u ms myVotes =
     \<lparr>user = u, movies = ms, userVotes = myVotes,
      remainingPlus = 7 - int (plusUsed myVotes),
      remainingMinus = 1 - int (minusUsed myVotes)\<rparr>"

text \<open>
  One vote intent on the ballot \<open>myVotes\<close>: the object written by \<open>handleVote\<close> comes
  back through the snapshot listener as the next \<open>myVotes\<close>; without a write the
  ballot stays as it is.
\<close>

definition applyVote :: "FirebaseUser option \<Rightarrow> Movie list \<Rightarrow> votes_map \<Rightarrow> string \<Rightarrow> vote_type \<Rightarrow> votes_map" where
  "applyVote u ms myVotes movieId ty =
     (case handleVote (voting_props u ms myVotes) movieId ty of
        None \<Rightarrow> myVotes
      | Some newVotesMap \<Rightarrow> newVotesMap)"

fun applyVotes :: "FirebaseUser option \<Rightarrow> Movie list \<Rightarrow> votes_map \<Rightarrow> (string \<times> vote_type) list \<Rightarrow> votes_map" where
  "applyVotes u ms myVotes [] = myVotes"
| "applyVotes u ms myVotes (i # is) = applyVotes u ms (applyVote u ms myVotes (fst i) (snd i)) is"

text \<open>The same for button presses; each press sees the movie list of its moment.\<close>

definition pressVote :: "FirebaseUser option \<Rightarrow> Movie list \<Rightarrow> votes_map \<Rightarrow> string \<Rightarrow> vote_type \<Rightarrow> votes_map" where
  "pressVote u ms myVotes movieId ty =
     (case press (voting_props u ms myVotes) movieId ty of
        None \<Rightarrow> myVotes
      | Some newVotesMap \<Rightarrow> newVotesMap)"

fun pressVotes :: "FirebaseUser option \<Rightarrow> votes_map \<Rightarrow> (Movie list \<times> string \<times> vote_type) list \<Rightarrow> votes_map" where
  "pressVotes u myVotes [] = myVotes"
| "pressVotes u myVotes (c # cs) =
     pressVotes u (pressVote u (fst c) myVotes (fst (snd c)) (snd (snd c))) cs"


section \<open>The tally: \<open>results\<close> of \<open>ResultsPhase\<close>\<close>

text \<open>\<open>movies.map(m => ({ ...m, plus: 0, minus: 0, total: 0, voters: [] }))\<close>.\<close>

definition init_score :: "Movie \<Rightarrow> ScoredMovie" where
  "init_score m =
     \<lparr>movie_id = movie_id m, title = title m, link = link m, comment = comment m,
      nominator = nominator m, nominatorId = nominatorId m, createdAt = createdAt m,
      sm_plus = 0, sm_minus = 0, sm_total = 0, sm_voters = []\<rparr>"

text \<open>
  The body of the inner \<open>forEach\<close> for one entry \<open>[movieId, value]\<close>:
  \<open>scores.find\<close> takes the first score with that id, and the three updates are made
  on it in place; when there is none, nothing happens.
\<close>

fun score_entry :: "string \<Rightarrow> string \<Rightarrow> int \<Rightarrow> ScoredMovie list \<Rightarrow> ScoredMovie list" where
  "score_entry uname movieId val [] = []"
| "score_entry uname movieId val (s # ss) =
     (if movie_id s = movieId
      then s\<lparr>sm_plus := (if val = 1 then sm_plus s + 1 else sm_plus s),
             sm_minus := (if val = 1 then sm_minus s else sm_minus s + 1),
             sm_total := sm_total s + val,
             sm_voters := sm_voters s @ [\<lparr>voter_name = uname, voter_type = val\<rparr>]\<rparr> # ss
      else s # score_entry uname movieId val ss)"

text \<open>One vote document: \<open>if (!voteDoc.votes) return\<close>, then every entry in turn.\<close>

definition score_doc :: "VoteDoc \<Rightarrow> ScoredMovie list \<Rightarrow> ScoredMovie list" where
  "score_doc voteDoc scores =
     (case votes voteDoc of
        None \<Rightarrow> scores
      | Some vs \<Rightarrow> fold (\<lambda>e. score_entry (userName voteDoc) (fst e) (snd e)) vs scores)"

text \<open>The array \<open>scores\<close> when the outer \<open>forEach\<close> is done, before it is sorted.\<close>

definition scores_of :: "Movie list \<Rightarrow> VoteDoc list \<Rightarrow> ScoredMovie list" where
  "scores_of ms allVotes = fold score_doc allVotes (map init_score ms)"

text \<open>
  \<open>Array.prototype.sort\<close> with a comparator is a stable sort (ECMAScript 2019 on):
  an element goes before another when the comparator is negative, and elements that
  compare equal keep their order. Insertion from the right end is such a sort.
\<close>

fun insert_by :: "('a \<Rightarrow> 'a \<Rightarrow> int) \<Rightarrow> 'a \<Rightarrow> 'a list \<Rightarrow> 'a list" where
  "insert_by cmp x [] = [x]"
| "insert_by cmp x (y # ys) = (if cmp x y \<le> 0 then x # y # ys else y # insert_by cmp x ys)"

fun array_sort :: "('a \<Rightarrow> 'a \<Rightarrow> int) \<Rightarrow> 'a list \<Rightarrow> 'a list" where
  "array_sort cmp [] = []"
| "array_sort cmp (x # xs) = insert_by cmp x (array_sort cmp xs)"

text \<open>\<open>scores.sort((a, b) => b.total - a.total)\<close>.\<close>

definition results :: "Movie list \<Rightarrow> VoteDoc list \<Rightarrow> ScoredMovie list" where
  "results ms allVotes = array_sort (\<lambda>a b. sm_total b - sm_total a) (scores_of ms allVotes)"


section \<open>The ballot entries of one movie\<close>



section \<open>Invariants used in the proofs\<close>

definition within_limits :: "votes_map \<Rightarrow> bool" where
  "within_limits m = (plusUsed m \<le> 7 \<and> minusUsed m \<le> 1)"



definition same_ballot :: "VoteDoc \<Rightarrow> VoteDoc \<Rightarrow> bool" where
  "same_ballot d d' =
     (userName d = userName d' \<and>
      rel_option (\<lambda>vs vs'. distinct (map fst vs) \<and> distinct (map fst vs') \<and> set vs = set vs')
        (votes d) (votes d'))"





section \<open>Example data\<close>

definition voter1 :: FirebaseUser where
  "voter1 = \<lparr>uid = ''u1'', displayName = ''Ann''\<rparr>"

definition movie_of :: "string \<Rightarrow> Movie" where
  "movie_of i = \<lparr>movie_id = i, title = i, link = None, comment = None,
     nominator = ''Ann'', nominatorId = ''u1'', createdAt = 0\<rparr>"

definition ballot_of :: "string \<Rightarrow> votes_map \<Rightarrow> VoteDoc" where
  "ballot_of n vs = \<lparr>votes = Some vs, userName = n, updatedAt = 0\<rparr>"

definition seven_plus :: votes_map where
  "seven_plus = [(''A'', 1), (''B'', 1), (''C'', 1), (''D'', 1), (''E'', 1), (''F'', 1), (''G'', 1)]"

definition full_ballot :: votes_map where
  "full_ballot = seven_plus @ [(''N'', - 1)]"

definition nine_movies :: "Movie list" where
  "nine_movies = map movie_of [''A'', ''B'', ''C'', ''D'', ''E'', ''F'', ''G'', ''N'', ''H'']"

definition abc_movies :: "Movie list" where
  "abc_movies = [movie_of ''A'', movie_of ''B'', movie_of ''C'']"

definition abc_votes :: "VoteDoc list" where
  "abc_votes = [ballot_of ''v1'' [(''A'', 1), (''B'', - 1)], ballot_of ''v2'' [(''A'', 1), (''C'', 1)]]"



section \<open>Properties of the ballot\<close>

subsection \<open>Assignment, deletion and the counters\<close>

lemma map_of_assign: "map_of (assign k v m) = (map_of m)(k \<mapsto> v)"
  by (induction m) (auto simp: fun_eq_iff)

lemma assign_keys: "map_of m c = Some w \<Longrightarrow> map fst (assign c v m) = map fst m"
  by (induction m) (auto split: if_splits)

lemma assign_fresh: "map_of m c = None \<Longrightarrow> assign c v m = m @ [(c, v)]"
  by (induction m) (auto split: if_splits)

lemma set_assign_subset: "set (assign c v m) \<subseteq> insert (c, v) (set m)"
  by (induction m) auto

lemma delete_zero_id: "0 \<notin> snd ` set m \<Longrightarrow> delete_zero m = m"
  unfolding delete_zero_def by (induction m) auto

lemma plusUsed_delete_zero: "plusUsed (delete_zero m) = plusUsed m"
  unfolding plusUsed_def delete_zero_def by (induction m) auto

lemma minusUsed_delete_zero: "minusUsed (delete_zero m) = minusUsed m"
  unfolding minusUsed_def delete_zero_def by (induction m) auto

lemma plusUsed_assign:
  "int (plusUsed (assign k v m)) =
     int (plusUsed m) + (if v = 1 then 1 else 0) - (if currentVote_of m k = 1 then 1 else 0)"
  unfolding plusUsed_def currentVote_of_def by (induction m) auto

lemma minusUsed_assign:
  "int (minusUsed (assign k v m)) =
     int (minusUsed m) + (if v = - 1 then 1 else 0) - (if currentVote_of m k = - 1 then 1 else 0)"
  unfolding minusUsed_def currentVote_of_def by (induction m) auto

lemma delete_zero_assign_zero:
  "distinct (map fst m) \<Longrightarrow>
   delete_zero (assign c 0 m) = filter (\<lambda>q. fst q \<noteq> c \<and> snd q \<noteq> 0) m"
  unfolding delete_zero_def
proof (induction m)
  case Nil
  show ?case by simp
next
  case (Cons q m)
  show ?case
  proof (cases "fst q = c")
    case True
    with Cons.prems have "c \<notin> fst ` set m" by auto
    then have "filter (\<lambda>q. fst q \<noteq> c \<and> snd q \<noteq> 0) m = filter (\<lambda>q. snd q \<noteq> 0) m"
      by (intro filter_cong) (auto simp: image_iff)
    with True show ?thesis by simp
  next
    case False
    with Cons show ?thesis by simp
  qed
qed

lemma count_values_card:
  "distinct (map fst m) \<Longrightarrow>
   length (filter (\<lambda>v. v = w) (map snd m)) = card {k. map_of m k = Some w}"
proof (induction m)
  case Nil
  show ?case by simp
next
  case (Cons q m)
  obtain a b where q: "q = (a, b)" by (cases q)
  from Cons.prems q have fresh: "map_of m a = None" and d: "distinct (map fst m)"
    by (auto simp: map_of_eq_None_iff)
  have fin: "finite {k. map_of m k = Some w}"
    by (rule finite_subset [OF _ finite_dom_map_of [of m]]) auto
  have notin: "a \<notin> {k. map_of m k = Some w}" using fresh by simp
  have split: "{k. map_of (q # m) k = Some w} =
      (if b = w then insert a {k. map_of m k = Some w} else {k. map_of m k = Some w})"
    using fresh unfolding q by auto
  show ?case
    unfolding split using Cons.IH [OF d] fin notin q by simp
qed

subsection \<open>The limits 7 and 1\<close>

lemma pressVote_within_limits:
  assumes "within_limits m"
  shows "within_limits (pressVote u ms m movieId ty)"
proof (cases "press (voting_props u ms m) movieId ty")
  case None
  then show ?thesis using assms by (simp add: pressVote_def)
next
  case (Some m')
  then have m': "pressVote u ms m movieId ty = m'" by (simp add: pressVote_def)
  from Some obtain nv where
    nv: "newVote_of ty (currentVote_of m movieId) (7 - int (plusUsed m)) (1 - int (minusUsed m)) = Some nv"
    and en: "\<not> button_disabled ty (currentVote_of m movieId) (7 - int (plusUsed m)) (1 - int (minusUsed m))"
    and eq: "m' = delete_zero (assign movieId nv m)"
    by (auto simp: press_def handleVote_def voting_props_def split: if_splits option.splits)
  have p: "int (plusUsed m') =
      int (plusUsed m) + (if nv = 1 then 1 else 0) - (if currentVote_of m movieId = 1 then 1 else 0)"
    by (simp add: eq plusUsed_delete_zero plusUsed_assign)
  have n: "int (minusUsed m') =
      int (minusUsed m) + (if nv = - 1 then 1 else 0) - (if currentVote_of m movieId = - 1 then 1 else 0)"
    by (simp add: eq minusUsed_delete_zero minusUsed_assign)
  from assms have lim: "int (plusUsed m) \<le> 7" "int (minusUsed m) \<le> 1"
    by (simp_all add: within_limits_def)
  have "int (plusUsed m') \<le> 7 \<and> int (minusUsed m') \<le> 1"
    using nv en lim unfolding p n newVote_of_def button_disabled_def
    by (cases ty) (auto split: if_splits)
  then show ?thesis by (simp add: m' within_limits_def)
qed

lemma pressVotes_within_limits:
  "within_limits m \<Longrightarrow> within_limits (pressVotes u m cs)"
  by (induction cs arbitrary: m) (simp_all add: pressVote_within_limits)

text \<open>
  C1, as amended. For every ballot reached from the empty ballot by any sequence of
  presses on vote buttons, where \<open>handleVote\<close> runs only when the pressed button is
  not disabled, at most 7 entries have weight +1 and at most 1 entry has weight -1.
\<close>

theorem press_keeps_limits:
  "plusUsed (pressVotes u [] cs) \<le> 7 \<and> minusUsed (pressVotes u [] cs) \<le> 1"
  using pressVotes_within_limits [of "[]" u cs]
  by (simp add: within_limits_def plusUsed_def minusUsed_def)

text \<open>
  The four presses that would give two negative votes: the last one meets a disabled
  button, and the ballot keeps one vote of each sign.
\<close>

theorem press_keeps_limits_witness:
  "pressVotes (Some voter1) []
     [(abc_movies, ''A'', VotePlus), (abc_movies, ''A'', VoteMinus),
      (abc_movies, ''B'', VotePlus), (abc_movies, ''B'', VoteMinus)] = [(''A'', - 1), (''B'', 1)]
   \<and> plusUsed (pressVotes (Some voter1) []
       [(abc_movies, ''A'', VotePlus), (abc_movies, ''A'', VoteMinus),
        (abc_movies, ''B'', VotePlus), (abc_movies, ''B'', VoteMinus)]) \<le> 7
   \<and> minusUsed (pressVotes (Some voter1) []
       [(abc_movies, ''A'', VotePlus), (abc_movies, ''A'', VoteMinus),
        (abc_movies, ''B'', VotePlus), (abc_movies, ''B'', VoteMinus)]) \<le> 1"
  using press_keeps_limits [of "Some voter1"
      "[(abc_movies, ''A'', VotePlus), (abc_movies, ''A'', VoteMinus),
        (abc_movies, ''B'', VotePlus), (abc_movies, ''B'', VoteMinus)]"]
  by (simp add: pressVote_def press_def handleVote_def voting_props_def newVote_of_def
      currentVote_of_def button_disabled_def plusUsed_def minusUsed_def delete_zero_def
      abc_movies_def movie_of_def)

text \<open>
  C1 as stated fails: the same four intents given to \<open>handleVote\<close> directly end in a
  ballot with two entries of weight -1, since the branch \<open>currentVote === 1\<close> of a
  minus vote does not look at the remaining allowance.
\<close>

theorem handleVote_exceeds_limit:
  "\<not> (plusUsed (applyVotes (Some voter1) abc_movies []
          [(''A'', VotePlus), (''A'', VoteMinus), (''B'', VotePlus), (''B'', VoteMinus)]) \<le> 7
      \<and> minusUsed (applyVotes (Some voter1) abc_movies []
          [(''A'', VotePlus), (''A'', VoteMinus), (''B'', VotePlus), (''B'', VoteMinus)]) \<le> 1)"
  by (simp add: applyVote_def handleVote_def voting_props_def newVote_of_def currentVote_of_def
      plusUsed_def minusUsed_def delete_zero_def)

subsection \<open>The exchange of a negative vote for a positive one\<close>

text \<open>
  C2, as amended. On a ballot of exactly 7 entries of weight +1 and 1 entry of weight
  -1, \<open>handleVote\<close> with a plus intent on the movie that holds the -1 turns that entry
  into +1 and leaves every other entry as it is; the ballot then has 8 entries of
  weight +1 and none of weight -1, and its remaining positive allowance, 7 - 8 with
  no clamping, is -1. The plus button of that movie is disabled in this state.
\<close>

theorem exchange_plus_for_minus:
  assumes "plusUsed m = 7" and "minusUsed m = 1"
    and "0 \<notin> snd ` set m"
    and "map_of m c = Some (- 1)"
  shows "applyVote (Some u) ms m c VotePlus = assign c 1 m
       \<and> map_of (applyVote (Some u) ms m c VotePlus) = (map_of m)(c \<mapsto> 1)
       \<and> map fst (applyVote (Some u) ms m c VotePlus) = map fst m
       \<and> plusUsed (applyVote (Some u) ms m c VotePlus) = 8
       \<and> minusUsed (applyVote (Some u) ms m c VotePlus) = 0
       \<and> remainingPlus (voting_props (Some u) ms (applyVote (Some u) ms m c VotePlus)) = - 1
       \<and> button_disabled VotePlus (currentVote_of m c)
           (remainingPlus (voting_props (Some u) ms m)) (remainingMinus (voting_props (Some u) ms m))"
proof -
  have cv: "currentVote_of m c = - 1" using assms(4) by (simp add: currentVote_of_def)
  have "0 \<notin> snd ` set (assign c 1 m)"
    using set_assign_subset [of c 1 m] assms(3) by (auto simp: image_iff)
  then have dz: "delete_zero (assign c 1 m) = assign c 1 m" by (rule delete_zero_id)
  have ap: "applyVote (Some u) ms m c VotePlus = assign c 1 m"
    using cv assms(1) dz
    by (simp add: applyVote_def handleVote_def voting_props_def newVote_of_def)
  have p: "int (plusUsed (assign c 1 m)) = 8"
    using plusUsed_assign [of c 1 m] cv assms(1) by simp
  have n: "int (minusUsed (assign c 1 m)) = 0"
    using minusUsed_assign [of c 1 m] cv assms(2) by simp
  from p have p': "plusUsed (assign c 1 m) = 8" by linarith
  from n have n': "minusUsed (assign c 1 m) = 0" by linarith
  show ?thesis
    unfolding ap using p' n' cv assms(1,4)
    by (simp add: map_of_assign assign_keys voting_props_def button_disabled_def)
qed

theorem exchange_plus_for_minus_witness:
  "plusUsed full_ballot = 7 \<and> minusUsed full_ballot = 1 \<and> 0 \<notin> snd ` set full_ballot
   \<and> map_of full_ballot ''N'' = Some (- 1)
   \<and> applyVote (Some voter1) nine_movies full_ballot ''N'' VotePlus = seven_plus @ [(''N'', 1)]
   \<and> plusUsed (applyVote (Some voter1) nine_movies full_ballot ''N'' VotePlus) = 8"
proof -
  have h1: "plusUsed full_ballot = 7" and h2: "minusUsed full_ballot = 1"
    by (simp_all add: full_ballot_def seven_plus_def plusUsed_def minusUsed_def)
  have h3: "0 \<notin> snd ` set full_ballot" and h4: "map_of full_ballot ''N'' = Some (- 1)"
    by (simp_all add: full_ballot_def seven_plus_def)
  have a: "assign ''N'' 1 full_ballot = seven_plus @ [(''N'', 1)]"
    by (simp add: full_ballot_def seven_plus_def)
  note t = exchange_plus_for_minus [OF h1 h2 h3 h4, of voter1 nine_movies]
  from t a have e: "applyVote (Some voter1) nine_movies full_ballot ''N'' VotePlus
      = seven_plus @ [(''N'', 1)]"
    by (simp only:)
  from t have p: "plusUsed (applyVote (Some voter1) nine_movies full_ballot ''N'' VotePlus) = 8"
    by blast
  from h1 h2 h3 h4 e p show ?thesis by blast
qed

text \<open>C2 as stated fails in its last part: the remaining positive allowance is not 0.\<close>

theorem exchange_leaves_negative_allowance:
  "remainingPlus (voting_props (Some voter1) nine_movies
      (applyVote (Some voter1) nine_movies full_ballot ''N'' VotePlus)) \<noteq> 0"
  by (simp add: applyVote_def handleVote_def voting_props_def newVote_of_def currentVote_of_def
      plusUsed_def minusUsed_def delete_zero_def full_ballot_def seven_plus_def)

subsection \<open>Votes on a movie that is not listed\<close>

text \<open>
  C3, as amended. \<open>handleVote\<close> does not look at the movie list: an intent on an id
  that is not listed is handled like any other, so with allowance left it adds an
  entry of weight +1 (or -1) for that id. Such an intent is kept away only by the
  rendering: there is no button, hence no press, for an id that is not listed.
\<close>

theorem handleVote_ignores_movie_list:
  assumes "user p = Some u"
    and "movieId \<notin> set (map movie_id (movies p))"
    and "map_of (userVotes p) movieId = None"
  shows "handleVote (p\<lparr>movies := ms\<rparr>) movieId ty = handleVote p movieId ty
       \<and> (0 < remainingPlus p \<longrightarrow>
            handleVote p movieId VotePlus = Some (delete_zero (userVotes p) @ [(movieId, 1)]))
       \<and> (0 < remainingMinus p \<longrightarrow>
            handleVote p movieId VoteMinus = Some (delete_zero (userVotes p) @ [(movieId, - 1)]))
       \<and> press p movieId ty = None"
proof -
  have cv: "currentVote_of (userVotes p) movieId = 0"
    using assms(3) by (simp add: currentVote_of_def)
  have a: "handleVote (p\<lparr>movies := ms\<rparr>) movieId ty = handleVote p movieId ty"
    by (simp add: handleVote_def cong: option.case_cong)
  have b: "handleVote p movieId VotePlus = Some (delete_zero (userVotes p) @ [(movieId, 1)])"
    if "0 < remainingPlus p"
    using that assms(1) cv
    by (simp add: handleVote_def newVote_of_def assign_fresh [OF assms(3)] delete_zero_def)
  have c: "handleVote p movieId VoteMinus = Some (delete_zero (userVotes p) @ [(movieId, - 1)])"
    if "0 < remainingMinus p"
    using that assms(1) cv
    by (simp add: handleVote_def newVote_of_def assign_fresh [OF assms(3)] delete_zero_def)
  have d: "press p movieId ty = None"
    using assms(2) by (simp add: press_def)
  from a b c d show ?thesis by blast
qed

theorem handleVote_ignores_movie_list_witness:
  "user (voting_props (Some voter1) abc_movies [(''A'', 1)]) = Some voter1
   \<and> ''ghost'' \<notin> set (map movie_id (movies (voting_props (Some voter1) abc_movies [(''A'', 1)])))
   \<and> map_of (userVotes (voting_props (Some voter1) abc_movies [(''A'', 1)])) ''ghost'' = None
   \<and> 0 < remainingPlus (voting_props (Some voter1) abc_movies [(''A'', 1)])
   \<and> 0 < remainingMinus (voting_props (Some voter1) abc_movies [(''A'', 1)])
   \<and> handleVote (voting_props (Some voter1) abc_movies [(''A'', 1)]) ''ghost'' VotePlus
       = Some [(''A'', 1), (''ghost'', 1)]
   \<and> handleVote (voting_props (Some voter1) abc_movies [(''A'', 1)]) ''ghost'' VoteMinus
       = Some [(''A'', 1), (''ghost'', - 1)]
   \<and> press (voting_props (Some voter1) abc_movies [(''A'', 1)]) ''ghost'' VotePlus = None"
proof -
  have h1: "user (voting_props (Some voter1) abc_movies [(''A'', 1)]) = Some voter1"
    by (simp add: voting_props_def)
  have h2: "''ghost'' \<notin> set (map movie_id (movies (voting_props (Some voter1) abc_movies [(''A'', 1)])))"
    by (simp add: voting_props_def abc_movies_def movie_of_def)
  have h3: "map_of (userVotes (voting_props (Some voter1) abc_movies [(''A'', 1)])) ''ghost'' = None"
    by (simp add: voting_props_def)
  have h4: "0 < remainingPlus (voting_props (Some voter1) abc_movies [(''A'', 1)])"
    and h5: "0 < remainingMinus (voting_props (Some voter1) abc_movies [(''A'', 1)])"
    by (simp_all add: voting_props_def plusUsed_def minusUsed_def)
  have dz: "delete_zero (userVotes (voting_props (Some voter1) abc_movies [(''A'', 1)])) = [(''A'', 1)]"
    by (simp add: voting_props_def delete_zero_def)
  from handleVote_ignores_movie_list [OF h1 h2 h3, of abc_movies VotePlus] h1 h2 h3 h4 h5 dz
  show ?thesis by simp
qed

text \<open>
  C3 as stated fails: a plus intent on an id that is not listed, on the empty ballot,
  writes a ballot with an entry for that id.
\<close>

theorem unknown_id_gets_entry:
  "''ghost'' \<notin> set (map movie_id abc_movies)
   \<and> applyVote (Some voter1) abc_movies [] ''ghost'' VotePlus = [(''ghost'', 1)]
   \<and> applyVote (Some voter1) abc_movies [] ''ghost'' VotePlus \<noteq> []"
  by (simp add: applyVote_def handleVote_def voting_props_def newVote_of_def currentVote_of_def
      plusUsed_def minusUsed_def delete_zero_def abc_movies_def movie_of_def)

subsection \<open>The remaining allowance\<close>

text \<open>
  C4, as amended. For every ballot, the remaining positive allowance is 7 minus the
  number of keys with weight +1 and the remaining negative allowance is 1 minus the
  number of keys with weight -1; neither is clamped, so each is negative exactly
  when the ballot has more such entries than the limit.
\<close>

theorem remaining_is_unclamped_difference:
  assumes "distinct (map fst myVotes)"
  shows "remainingPlus (voting_props u ms myVotes) = 7 - int (card {k. map_of myVotes k = Some 1})
       \<and> remainingMinus (voting_props u ms myVotes) = 1 - int (card {k. map_of myVotes k = Some (- 1)})
       \<and> (remainingPlus (voting_props u ms myVotes) < 0 \<longleftrightarrow> 7 < card {k. map_of myVotes k = Some 1})
       \<and> (remainingMinus (voting_props u ms myVotes) < 0 \<longleftrightarrow> 1 < card {k. map_of myVotes k = Some (- 1)})"
  using count_values_card [OF assms, of 1] count_values_card [OF assms, of "- 1"]
  by (simp add: voting_props_def plusUsed_def minusUsed_def)

theorem remaining_is_unclamped_difference_witness:
  "distinct (map fst full_ballot)
   \<and> remainingPlus (voting_props (Some voter1) nine_movies full_ballot) = 0
   \<and> remainingMinus (voting_props (Some voter1) nine_movies full_ballot) = 0
   \<and> card {k. map_of full_ballot k = Some 1} = 7
   \<and> card {k. map_of full_ballot k = Some (- 1)} = 1"
proof -
  have h: "distinct (map fst full_ballot)"
    by (simp add: full_ballot_def seven_plus_def)
  have r: "remainingPlus (voting_props (Some voter1) nine_movies full_ballot) = 0"
    "remainingMinus (voting_props (Some voter1) nine_movies full_ballot) = 0"
    by (simp_all add: voting_props_def plusUsed_def minusUsed_def full_ballot_def seven_plus_def)
  from remaining_is_unclamped_difference [OF h, of "Some voter1" nine_movies] r h
  show ?thesis by simp
qed

text \<open>
  C4 as stated fails: on a ballot with 8 entries of weight +1 the remaining positive
  allowance is negative.
\<close>

theorem remaining_goes_negative:
  "\<not> 0 \<le> remainingPlus (voting_props (Some voter1) nine_movies (seven_plus @ [(''N'', 1)]))"
  by (simp add: voting_props_def plusUsed_def seven_plus_def)

subsection \<open>Toggling a vote off, and the exhausted allowance\<close>

text \<open>
  C6. For a signed-in voter and every ballot in which movie \<open>c\<close> has weight +1, a plus
  intent on \<open>c\<close> writes the ballot without the entry of \<open>c\<close> and without any entry
  of weight 0, every other entry staying as it is; the same holds for a minus intent
  on a movie of weight -1.
\<close>

theorem toggle_off_removes_entry:
  assumes "user p = Some u"
    and "distinct (map fst (userVotes p))"
    and "(ty = VotePlus \<and> map_of (userVotes p) c = Some 1)
       \<or> (ty = VoteMinus \<and> map_of (userVotes p) c = Some (- 1))"
  shows "handleVote p c ty = Some (filter (\<lambda>q. fst q \<noteq> c \<and> snd q \<noteq> 0) (userVotes p))
       \<and> map_of (the (handleVote p c ty)) c = None
       \<and> 0 \<notin> snd ` set (the (handleVote p c ty))"
proof -
  from assms(3) have "newVote_of ty (currentVote_of (userVotes p) c)
      (remainingPlus p) (remainingMinus p) = Some 0"
    by (auto simp: newVote_of_def currentVote_of_def)
  with assms(1) have "handleVote p c ty = Some (delete_zero (assign c 0 (userVotes p)))"
    by (simp add: handleVote_def)
  then have eq: "handleVote p c ty = Some (filter (\<lambda>q. fst q \<noteq> c \<and> snd q \<noteq> 0) (userVotes p))"
    by (simp add: delete_zero_assign_zero [OF assms(2)])
  have "map_of (filter (\<lambda>q. fst q \<noteq> c \<and> snd q \<noteq> 0) (userVotes p)) c = None"
    by (auto simp: map_of_eq_None_iff)
  moreover have "0 \<notin> snd ` set (filter (\<lambda>q. fst q \<noteq> c \<and> snd q \<noteq> 0) (userVotes p))"
    by auto
  ultimately show ?thesis using eq by simp
qed

theorem toggle_off_removes_entry_witness:
  "user (voting_props (Some voter1) nine_movies full_ballot) = Some voter1
   \<and> distinct (map fst (userVotes (voting_props (Some voter1) nine_movies full_ballot)))
   \<and> map_of (userVotes (voting_props (Some voter1) nine_movies full_ballot)) ''N'' = Some (- 1)
   \<and> handleVote (voting_props (Some voter1) nine_movies full_ballot) ''N'' VoteMinus
       = Some seven_plus"
proof -
  have h1: "user (voting_props (Some voter1) nine_movies full_ballot) = Some voter1"
    by (simp add: voting_props_def)
  have h2: "distinct (map fst (userVotes (voting_props (Some voter1) nine_movies full_ballot)))"
    by (simp add: voting_props_def full_ballot_def seven_plus_def)
  have h3: "map_of (userVotes (voting_props (Some voter1) nine_movies full_ballot)) ''N'' = Some (- 1)"
    by (simp add: voting_props_def full_ballot_def seven_plus_def)
  have f: "filter (\<lambda>q. fst q \<noteq> ''N'' \<and> snd q \<noteq> 0)
      (userVotes (voting_props (Some voter1) nine_movies full_ballot)) = seven_plus"
    by (simp add: voting_props_def full_ballot_def seven_plus_def)
  from h3 have h3': "(VoteMinus = VotePlus
        \<and> map_of (userVotes (voting_props (Some voter1) nine_movies full_ballot)) ''N'' = Some 1)
      \<or> (VoteMinus = VoteMinus
        \<and> map_of (userVotes (voting_props (Some voter1) nine_movies full_ballot)) ''N'' = Some (- 1))"
    by simp
  from toggle_off_removes_entry [OF h1 h2 h3'] f h1 h2 h3
  show ?thesis by simp
qed

text \<open>
  C7. On a ballot with exactly 7 entries of weight +1, a plus intent on a movie with
  no entry is a no-op: \<open>handleVote\<close> returns before writing, and the ballot is the
  one that was given.
\<close>

theorem exhausted_plus_is_noop:
  assumes "plusUsed myVotes = 7" and "map_of myVotes c = None"
  shows "handleVote (voting_props u ms myVotes) c VotePlus = None
       \<and> applyVote u ms myVotes c VotePlus = myVotes"
  using assms
  by (simp add: applyVote_def handleVote_def voting_props_def newVote_of_def currentVote_of_def
      split: option.splits)

theorem exhausted_plus_is_noop_witness:
  "plusUsed seven_plus = 7 \<and> minusUsed seven_plus = 0 \<and> map_of seven_plus ''H'' = None
   \<and> handleVote (voting_props (Some voter1) nine_movies seven_plus) ''H'' VotePlus = None
   \<and> applyVote (Some voter1) nine_movies seven_plus ''H'' VotePlus = seven_plus"
proof -
  have h1: "plusUsed seven_plus = 7" and h0: "minusUsed seven_plus = 0"
    by (simp_all add: seven_plus_def plusUsed_def minusUsed_def)
  have h2: "map_of seven_plus ''H'' = None"
    by (simp add: seven_plus_def)
  from exhausted_plus_is_noop [OF h1 h2, of "Some voter1" nine_movies] h0 h1 h2
  show ?thesis by simp
qed

section \<open>Properties of the tally\<close>

subsection \<open>The sort\<close>

lemma set_insert_by: "set (insert_by cmp x ys) = insert x (set ys)"
  by (induction ys) auto

lemma mset_insert_by: "mset (insert_by cmp x ys) = add_mset x (mset ys)"
  by (induction ys) auto

lemma mset_array_sort: "mset (array_sort cmp xs) = mset xs"
  by (induction xs) (simp_all add: mset_insert_by)


lemma sorted_insert_by:
  fixes f :: "'a \<Rightarrow> int"
  assumes "sorted_wrt (\<lambda>a b. f b \<le> f a) ys"
  shows "sorted_wrt (\<lambda>a b. f b \<le> f a) (insert_by (\<lambda>a b. f b - f a) x ys)"
  using assms by (induction ys) (auto simp: set_insert_by)

lemma sorted_array_sort:
  fixes f :: "'a \<Rightarrow> int"
  shows "sorted_wrt (\<lambda>a b. f b \<le> f a) (array_sort (\<lambda>a b. f b - f a) xs)"
  by (induction xs) (simp_all add: sorted_insert_by)

lemma filter_insert_by:
  fixes f :: "'a \<Rightarrow> int"
  assumes "sorted_wrt (\<lambda>a b. f b \<le> f a) ys"
  shows "filter (\<lambda>y. f y = t) (insert_by (\<lambda>a b. f b - f a) x ys) =
         (if f x = t then x # filter (\<lambda>y. f y = t) ys else filter (\<lambda>y. f y = t) ys)"
  using assms
proof (induction ys)
  case Nil
  show ?case by simp
next
  case (Cons y ys)
  show ?case
  proof (cases "f y - f x \<le> 0")
    case True
    then show ?thesis by simp
  next
    case False
    then have "f x < f y" by simp
    with Cons show ?thesis by auto
  qed
qed

lemma array_sort_stable:
  fixes f :: "'a \<Rightarrow> int"
  shows "filter (\<lambda>y. f y = t) (array_sort (\<lambda>a b. f b - f a) xs) = filter (\<lambda>y. f y = t) xs"
  by (induction xs) (simp_all add: filter_insert_by sorted_array_sort)

subsection \<open>Scoring keeps the movies and their order\<close>

lemma score_entry_ids: "map movie_id (score_entry n k v ss) = map movie_id ss"
  by (induction ss) auto

lemma score_entry_truncate: "map Movie.truncate (score_entry n k v ss) = map Movie.truncate ss"
  by (induction ss) (auto simp: Movie.truncate_def)

lemma score_entry_unknown: "k \<notin> set (map movie_id ss) \<Longrightarrow> score_entry n k v ss = ss"
  by (induction ss) auto

lemma fold_score_entry_ids:
  "map movie_id (fold (\<lambda>e. score_entry n (fst e) (snd e)) vs ss) = map movie_id ss"
  by (induction vs arbitrary: ss) (simp_all add: score_entry_ids)

lemma fold_score_entry_truncate:
  "map Movie.truncate (fold (\<lambda>e. score_entry n (fst e) (snd e)) vs ss) = map Movie.truncate ss"
  by (induction vs arbitrary: ss) (simp_all add: score_entry_truncate)

lemma score_doc_ids: "map movie_id (score_doc d ss) = map movie_id ss"
  by (simp add: score_doc_def fold_score_entry_ids split: option.splits)

lemma score_doc_truncate: "map Movie.truncate (score_doc d ss) = map Movie.truncate ss"
  by (simp add: score_doc_def fold_score_entry_truncate split: option.splits)

lemma fold_score_doc_ids: "map movie_id (fold score_doc ds ss) = map movie_id ss"
  by (induction ds arbitrary: ss) (simp_all add: score_doc_ids)

lemma fold_score_doc_truncate: "map Movie.truncate (fold score_doc ds ss) = map Movie.truncate ss"
  by (induction ds arbitrary: ss) (simp_all add: score_doc_truncate)

lemma init_score_truncate: "map Movie.truncate (map init_score ms) = ms"
  by (induction ms) (simp_all add: init_score_def Movie.truncate_def)

lemma init_score_ids: "map movie_id (map init_score ms) = map movie_id ms"
  by (induction ms) (simp_all add: init_score_def)

lemma scores_of_truncate: "map Movie.truncate (scores_of ms allVotes) = ms"
  by (simp only: scores_of_def fold_score_doc_truncate init_score_truncate)

text \<open>
  C5. For every movie list and every list of vote documents, \<open>results\<close> holds the
  scored movies in descending order of \<open>total\<close>, and the scored movies of any one
  total stand in it in the order they have before the sort, which is the order of
  the movie list.
\<close>

theorem results_sorted_stable:
  "sorted_wrt (\<lambda>a b. sm_total b \<le> sm_total a) (results ms allVotes)
   \<and> mset (results ms allVotes) = mset (scores_of ms allVotes)
   \<and> filter (\<lambda>s. sm_total s = t) (results ms allVotes)
       = filter (\<lambda>s. sm_total s = t) (scores_of ms allVotes)
   \<and> map Movie.truncate (scores_of ms allVotes) = ms"
  unfolding results_def
  by (simp add: sorted_array_sort mset_array_sort array_sort_stable scores_of_truncate)

text \<open>The example of the specification: totals 2, -1 and 1 give the order A, C, B.\<close>

theorem results_sorted_stable_witness:
  "map (\<lambda>s. (movie_id s, sm_plus s, sm_minus s, sm_total s)) (results abc_movies abc_votes)
     = [(''A'', 2, 0, 2), (''C'', 1, 0, 1), (''B'', 0, 1, - 1)]
   \<and> sorted_wrt (\<lambda>a b. sm_total b \<le> sm_total a) (results abc_movies abc_votes)
   \<and> map Movie.truncate (scores_of abc_movies abc_votes) = abc_movies"
proof -
  have "map (\<lambda>s. (movie_id s, sm_plus s, sm_minus s, sm_total s)) (results abc_movies abc_votes)
     = [(''A'', 2, 0, 2), (''C'', 1, 0, 1), (''B'', 0, 1, - 1)]"
    by (simp add: results_def scores_of_def score_doc_def init_score_def
        abc_movies_def abc_votes_def movie_of_def ballot_of_def)
  with results_sorted_stable [of abc_movies abc_votes] show ?thesis by blast
qed

subsection \<open>Entries for movies that are not listed\<close>

lemma fold_score_entry_known:
  "fold (\<lambda>e. score_entry n (fst e) (snd e)) (filter (\<lambda>e. fst e \<in> K) vs) ss
     = fold (\<lambda>e. score_entry n (fst e) (snd e)) vs ss"
  if "set (map movie_id ss) = K"
  using that
proof (induction vs arbitrary: ss)
  case Nil
  show ?case by simp
next
  case (Cons e vs)
  have ids: "set (map movie_id (score_entry n (fst e) (snd e) ss)) = K"
    using Cons.prems by (simp only: score_entry_ids)
  show ?case
  proof (cases "fst e \<in> K")
    case True
    then show ?thesis using Cons.IH [OF ids] by simp
  next
    case False
    then have "score_entry n (fst e) (snd e) ss = ss"
      using Cons.prems by (intro score_entry_unknown) simp
    with False show ?thesis using Cons.IH [OF Cons.prems] by simp
  qed
qed

lemma score_doc_known:
  "set (map movie_id ss) = K \<Longrightarrow>
   score_doc (d\<lparr>votes := map_option (filter (\<lambda>e. fst e \<in> K)) (votes d)\<rparr>) ss = score_doc d ss"
  by (cases "votes d") (simp_all add: score_doc_def fold_score_entry_known)

lemma fold_score_doc_known:
  "set (map movie_id ss) = K \<Longrightarrow>
   fold score_doc (map (\<lambda>d. d\<lparr>votes := map_option (filter (\<lambda>e. fst e \<in> K)) (votes d)\<rparr>) ds) ss
     = fold score_doc ds ss"
proof (induction ds arbitrary: ss)
  case Nil
  show ?case by simp
next
  case (Cons d ds)
  have "set (map movie_id (score_doc d ss)) = K"
    using Cons.prems by (simp only: score_doc_ids)
  from Cons.IH [OF this] show ?case
    by (simp add: score_doc_known [OF Cons.prems])
qed

text \<open>
  C8. For every movie list and every list of vote documents, the entries whose
  movie id matches no listed movie are dropped by the tally: \<open>results\<close> is a total
  function, and it returns the same scored movies (counts, totals and voters) as on
  the vote documents with all those entries taken out.
\<close>

theorem results_drop_unknown_entries:
  "results ms
     (map (\<lambda>d. d\<lparr>votes := map_option (filter (\<lambda>e. fst e \<in> set (map movie_id ms))) (votes d)\<rparr>)
        allVotes)
   = results ms allVotes"
proof -
  have "set (map movie_id (map init_score ms)) = set (map movie_id ms)"
    by (simp only: init_score_ids)
  from fold_score_doc_known [OF this] show ?thesis
    by (simp add: results_def scores_of_def)
qed

text \<open>A vote for a deleted movie \<open>Z\<close> beside the votes of the example changes nothing.\<close>

theorem results_drop_unknown_entries_witness:
  "results abc_movies [ballot_of ''v1'' [(''A'', 1), (''B'', - 1)], ballot_of ''v2'' [(''A'', 1), (''C'', 1)]]
   = results abc_movies
       [ballot_of ''v1'' [(''A'', 1), (''Z'', 1), (''B'', - 1)], ballot_of ''v2'' [(''Z'', - 1), (''A'', 1), (''C'', 1)]]"
  using results_drop_unknown_entries [of abc_movies
      "[ballot_of ''v1'' [(''A'', 1), (''Z'', 1), (''B'', - 1)], ballot_of ''v2'' [(''Z'', - 1), (''A'', 1), (''C'', 1)]]"]
  by (simp add: abc_movies_def movie_of_def ballot_of_def)

subsection \<open>The tally reads a ballot as a mapping\<close>

lemma score_entry_commute:
  "k1 \<noteq> k2 \<Longrightarrow>
   score_entry n k1 v1 (score_entry n k2 v2 ss) = score_entry n k2 v2 (score_entry n k1 v1 ss)"
  by (induction ss) auto

lemma fold_score_entry_reorder:
  assumes "distinct (map fst vs)" and "distinct (map fst vs')" and "set vs = set vs'"
  shows "fold (\<lambda>e. score_entry n (fst e) (snd e)) vs = fold (\<lambda>e. score_entry n (fst e) (snd e)) vs'"
proof (rule fold_multiset_equiv)
  from assms have "distinct vs" "distinct vs'" by (simp_all add: distinct_map)
  with assms(3) show "mset vs = mset vs'" by (simp add: set_eq_iff_mset_eq_distinct)
next
  fix x y
  assume xy: "x \<in> set vs" "y \<in> set vs"
  show "(\<lambda>e. score_entry n (fst e) (snd e)) x \<circ> (\<lambda>e. score_entry n (fst e) (snd e)) y
      = (\<lambda>e. score_entry n (fst e) (snd e)) y \<circ> (\<lambda>e. score_entry n (fst e) (snd e)) x"
  proof (cases "x = y")
    case True
    then show ?thesis by simp
  next
    case False
    with xy assms(1) have "fst x \<noteq> fst y"
      by (meson distinct_map inj_onD)
    then show ?thesis by (simp add: fun_eq_iff score_entry_commute)
  qed
qed

lemma score_doc_same_ballot:
  assumes "same_ballot d d'"
  shows "score_doc d = score_doc d'"
proof (cases "votes d")
  case None
  with assms show ?thesis by (auto simp: same_ballot_def score_doc_def fun_eq_iff)
next
  case (Some vs)
  with assms obtain vs' where vs': "votes d' = Some vs'"
    and d: "distinct (map fst vs)" "distinct (map fst vs')" "set vs = set vs'"
    by (cases "votes d'") (auto simp: same_ballot_def)
  from assms have "userName d = userName d'" by (simp add: same_ballot_def)
  with Some vs' fold_score_entry_reorder [OF d, of "userName d'"] show ?thesis
    by (simp add: score_doc_def fun_eq_iff)
qed

lemma fold_score_doc_same:
  "list_all2 same_ballot ds ds' \<Longrightarrow> fold score_doc ds ss = fold score_doc ds' ss"
  by (induction ds ds' arbitrary: ss rule: list_all2_induct) (simp_all add: score_doc_same_ballot)

text \<open>
  C9. \<open>results\<close> is a function of the movie list and the list of vote documents and
  of nothing else, so two calls on identical inputs return identical outputs, the
  order of every \<open>voters\<close> list included. The code reads nothing but its two
  arguments, and of each vote document only the user name and the votes as a
  mapping: two lists of vote documents that agree, document by document, in the user
  name and in the set of entries give the same result, whatever the order in which
  \<open>Object.entries\<close> lists the entries of a ballot.
\<close>

theorem results_deterministic:
  assumes "list_all2 (\<lambda>d d'. userName d = userName d' \<and>
      rel_option (\<lambda>vs vs'. distinct (map fst vs) \<and> distinct (map fst vs') \<and> set vs = set vs')
        (votes d) (votes d')) allVotes allVotes'"
  shows "results ms allVotes = results ms allVotes'"
proof -
  from assms have "list_all2 same_ballot allVotes allVotes'"
    by (simp add: same_ballot_def [abs_def])
  from fold_score_doc_same [OF this] show ?thesis
    by (simp add: results_def scores_of_def)
qed

theorem results_deterministic_witness:
  "list_all2 (\<lambda>d d'. userName d = userName d' \<and>
      rel_option (\<lambda>vs vs'. distinct (map fst vs) \<and> distinct (map fst vs') \<and> set vs = set vs')
        (votes d) (votes d'))
     [ballot_of ''v1'' [(''A'', 1), (''B'', - 1)], ballot_of ''v2'' [(''A'', 1), (''C'', 1)]]
     [ballot_of ''v1'' [(''B'', - 1), (''A'', 1)], ballot_of ''v2'' [(''A'', 1), (''C'', 1)]]
   \<and> results abc_movies
       [ballot_of ''v1'' [(''A'', 1), (''B'', - 1)], ballot_of ''v2'' [(''A'', 1), (''C'', 1)]]
     = results abc_movies
       [ballot_of ''v1'' [(''B'', - 1), (''A'', 1)], ballot_of ''v2'' [(''A'', 1), (''C'', 1)]]"
proof -
  have h: "list_all2 (\<lambda>d d'. userName d = userName d' \<and>
      rel_option (\<lambda>vs vs'. distinct (map fst vs) \<and> distinct (map fst vs') \<and> set vs = set vs')
        (votes d) (votes d'))
     [ballot_of ''v1'' [(''A'', 1), (''B'', - 1)], ballot_of ''v2'' [(''A'', 1), (''C'', 1)]]
     [ballot_of ''v1'' [(''B'', - 1), (''A'', 1)], ballot_of ''v2'' [(''A'', 1), (''C'', 1)]]"
    by (auto simp: ballot_of_def)
  from results_deterministic [OF h, of abc_movies] h show ?thesis by blast
qed

subsection \<open>Counts and total\<close>












subsection \<open>The scores are the booked ballot entries\<close>




















text \<open>An entry of weight 0 for a listed movie: one minus vote, and a total of 0.\<close>

lemma zero_weight_example:
  "map (\<lambda>s. (sm_plus s, sm_minus s, sm_total s))
     (results [movie_of ''A''] [ballot_of ''v1'' [(''A'', 0)]]) = [(0, 1, 0)]"
  by (simp add: results_def scores_of_def score_doc_def init_score_def movie_of_def ballot_of_def)

end
